theory Spec2Isabelle
  imports Complex_Main
begin

section \<open>Python values and exceptions\<close>

text \<open>
  The plugin \<^verbatim>\<open>daq_move_ChopperSR542.py\<close> is an adapter between the PyMoDAQ host
  framework and the vendor driver \<^verbatim>\<open>srsinst.sr542.SR542\<close>. Parameter values are
  dynamically typed; Python floats are idealised as reals (rounding is not modelled).
\<close>

datatype pvalue = VNone | VStr string | VFloat real | VInt int | VBool bool

text \<open>Truth value of \<^verbatim>\<open>if param.value():\<close>.\<close>

fun truthy :: "pvalue \<Rightarrow> bool" where
  "truthy VNone = False"
| "truthy (VStr s) = (s \<noteq> [])"
| "truthy (VFloat x) = (x \<noteq> 0)"
| "truthy (VInt i) = (i \<noteq> 0)"
| "truthy (VBool b) = b"

text \<open>
  The exceptions a call can end with: \<open>AttributeError\<close> (an attribute of \<^verbatim>\<open>None\<close>),
  \<open>IndexError\<close> (\<^verbatim>\<open>comports[0]\<close> on an empty list), \<open>KeyError\<close> (a settings child that
  does not exist), \<open>HostError\<close> (raised inside the host framework) and \<open>DriverError\<close>
  (raised inside the vendor driver). The plugin has no \<^verbatim>\<open>try\<close> block, so every
  exception ends the call; the state at the moment of the exception is not tracked.
\<close>

datatype exn = AttributeError | IndexError | KeyError | HostError | DriverError

section \<open>The vendor driver object\<close>

text \<open>
  The operations the plugin performs on the driver handle: assignments to
  \<^verbatim>\<open>controller.config.<field>\<close>, \<^verbatim>\<open>controller.operate.run()\<close> and \<^verbatim>\<open>stop()\<close>, and
  \<^verbatim>\<open>controller.disconnect()\<close>.
\<close>

datatype dev_op =
    SetSource pvalue
  | SetSyncEdge pvalue
  | SetInternalFreq pvalue
  | SetControlTarget pvalue
  | SetPhase real
  | OperateRun
  | OperateStop
  | Disconnect

text \<open>
  The handle as the plugin sees it: the answer of \<^verbatim>\<open>is_connected()\<close>, the configuration
  fields, whether the chopper runs, and the sequence of operations received so far
  (\<open>oplog\<close>, oldest first).
\<close>

record SR542 =
  is_connected :: bool
  source :: pvalue
  sync_edge :: pvalue
  internal_freq :: pvalue
  control_target :: pvalue
  phase :: real
  running :: bool
  oplog :: "dev_op list"

fun dev_apply :: "dev_op \<Rightarrow> SR542 \<Rightarrow> SR542" where
  "dev_apply (SetSource v) d = d\<lparr>source := v\<rparr>"
| "dev_apply (SetSyncEdge v) d = d\<lparr>sync_edge := v\<rparr>"
| "dev_apply (SetInternalFreq v) d = d\<lparr>internal_freq := v\<rparr>"
| "dev_apply (SetControlTarget v) d = d\<lparr>control_target := v\<rparr>"
| "dev_apply (SetPhase x) d = d\<lparr>phase := x\<rparr>"
| "dev_apply OperateRun d = d\<lparr>running := True\<rparr>"
| "dev_apply OperateStop d = d\<lparr>running := False\<rparr>"
| "dev_apply Disconnect d = d\<lparr>is_connected := False\<rparr>"

section \<open>The external collaborators\<close>

text \<open>
  Neither the vendor driver nor the host framework is part of the repository, so their
  behaviour is a parameter of every operation:
  \<^item> \<open>SR542_new port\<close> is \<^verbatim>\<open>SR542('serial', port, '115200')\<close>: a handle, or the exception
    the constructor raises;
  \<^item> \<open>fault d op\<close> is the exception the driver raises when \<open>op\<close> is performed on the
    handle \<open>d\<close>, if any; \<open>read_fault d\<close> likewise for reading \<^verbatim>\<open>config.phase\<close>;
  \<^item> \<open>ini_stage_init old new\<close>, \<open>check_bound\<close>, \<open>set_position_with_scaling\<close>,
    \<open>get_position_with_scaling\<close> and \<open>set_position_relative_with_scaling\<close> are the
    methods the plugin inherits from \<^verbatim>\<open>DAQ_Move_base\<close>.
\<close>

record env =
  SR542_new :: "pvalue \<Rightarrow> exn + SR542"
  fault :: "SR542 \<Rightarrow> dev_op \<Rightarrow> exn option"
  read_fault :: "SR542 \<Rightarrow> exn option"
  ini_stage_init :: "SR542 option \<Rightarrow> SR542 \<Rightarrow> exn + SR542"
  check_bound :: "real \<Rightarrow> real"
  set_position_with_scaling :: "real \<Rightarrow> real"
  get_position_with_scaling :: "real \<Rightarrow> real"
  set_position_relative_with_scaling :: "real \<Rightarrow> real"

definition dev_do :: "env \<Rightarrow> dev_op \<Rightarrow> SR542 \<Rightarrow> exn + SR542" where
  "dev_do E op d =
     (case fault E d op of
        Some e \<Rightarrow> Inl e
      | None \<Rightarrow> Inr ((dev_apply op d)\<lparr>oplog := oplog d @ [op]\<rparr>))"

section \<open>The settings tree\<close>

text \<open>
  One entry of the \<^verbatim>\<open>params\<close> table: the keys of the dictionary (\<^verbatim>\<open>type\<close> is \<open>ptype\<close>,
  \<^verbatim>\<open>min\<close> is \<open>pmin\<close>, \<^verbatim>\<open>value\<close> is \<open>val\<close>), and the visibility flag that \<^verbatim>\<open>show()\<close> and
  \<^verbatim>\<open>hide()\<close> set; a parameter is visible unless hidden.
\<close>

record param =
  title :: string
  name :: string
  ptype :: string
  limits :: "pvalue list"
  pmin :: pvalue
  val :: pvalue
  visible :: bool

text \<open>\<^verbatim>\<open>settings.child(n)\<close>: the child of that name, \<open>KeyError\<close> when there is none.\<close>

fun child :: "param list \<Rightarrow> string \<Rightarrow> exn + param" where
  "child [] n = Inl KeyError"
| "child (p # ps) n = (if name p = n then Inr p else child ps n)"

fun update_child :: "(param \<Rightarrow> param) \<Rightarrow> string \<Rightarrow> param list \<Rightarrow> exn + param list" where
  "update_child f n [] = Inl KeyError"
| "update_child f n (p # ps) =
     (if name p = n then Inr (f p # ps)
      else (case update_child f n ps of Inl e \<Rightarrow> Inl e | Inr ps' \<Rightarrow> Inr (p # ps')))"

definition show_child :: "string \<Rightarrow> param list \<Rightarrow> exn + param list" where
  "show_child n ps = update_child (\<lambda>p. p\<lparr>visible := True\<rparr>) n ps"

definition hide_child :: "string \<Rightarrow> param list \<Rightarrow> exn + param list" where
  "hide_child n ps = update_child (\<lambda>p. p\<lparr>visible := False\<rparr>) n ps"

text \<open>\<^verbatim>\<open>settings[n]\<close> and \<^verbatim>\<open>settings[n] = v\<close>.\<close>

definition get_item :: "param list \<Rightarrow> string \<Rightarrow> exn + pvalue" where
  "get_item ps n = (case child ps n of Inl e \<Rightarrow> Inl e | Inr p \<Rightarrow> Inr (val p))"

definition set_item :: "string \<Rightarrow> pvalue \<Rightarrow> param list \<Rightarrow> exn + param list" where
  "set_item n v ps = update_child (\<lambda>p. p\<lparr>val := v\<rparr>) n ps"

definition child_visible :: "param list \<Rightarrow> string \<Rightarrow> bool option" where
  "child_visible ps n = (case child ps n of Inl e \<Rightarrow> None | Inr p \<Rightarrow> Some (visible p))"

text \<open>
  \<^verbatim>\<open>comports = [port for port,_,_ in sorted(serial.tools.list_ports.comports())]\<close>; the
  argument is the sorted enumeration.
\<close>

definition comports :: "(string \<times> string \<times> string) list \<Rightarrow> string list" where
  "comports infos = map (\<lambda>(port, _, _). port) infos"

text \<open>
  The class attribute \<^verbatim>\<open>params\<close>. The list display is evaluated first, so \<^verbatim>\<open>comports[0]\<close>
  raises before \<^verbatim>\<open>comon_parameters_fun\<close> is called; \<open>comon\<close> is what that call returns.
\<close>

definition params :: "string list \<Rightarrow> param list \<Rightarrow> exn + param list" where
  "params cps comon =
     (case cps of
        [] \<Rightarrow> Inl IndexError
      | c0 # _ \<Rightarrow> Inr (
         [\<lparr>title = ''COM port:'', name = ''com_port'', ptype = ''list'',
            limits = map VStr cps, pmin = VNone, val = VStr c0, visible = True\<rparr>,
          \<lparr>title = ''Source:'', name = ''source'', ptype = ''list'',
            limits = [VStr ''internal'', VStr ''vco'', VStr ''line'', VStr ''external''],
            pmin = VNone, val = VStr ''internal'', visible = True\<rparr>,
          \<lparr>title = ''Edge:'', name = ''edge'', ptype = ''list'',
            limits = [VStr ''rise'', VStr ''fall'', VStr ''sine''],
            pmin = VNone, val = VStr ''rise'', visible = True\<rparr>,
          \<lparr>title = ''Internal Frequency:'', name = ''internal_freq'', ptype = ''float'',
            limits = [], pmin = VNone, val = VFloat 100, visible = True\<rparr>,
          \<lparr>title = ''Multiplier n:'', name = ''n'', ptype = ''int'',
            limits = [], pmin = VInt 1, val = VInt 1, visible = True\<rparr>,
          \<lparr>title = ''Multiplier m:'', name = ''m'', ptype = ''int'',
            limits = [], pmin = VInt 1, val = VInt 1, visible = True\<rparr>,
          \<lparr>title = ''Control:'', name = ''control'', ptype = ''list'',
            limits = [VStr ''shaft'', VStr ''inner'', VStr ''outer''],
            pmin = VNone, val = VStr ''outer'', visible = True\<rparr>,
          \<lparr>title = ''Run/Stop'', name = ''run'', ptype = ''bool_push'',
            limits = [], pmin = VNone, val = VBool False, visible = True\<rparr>]
         @ comon))"

section \<open>The plugin\<close>

text \<open>
  The attributes of \<^verbatim>\<open>DAQ_Move_ChopperSR542\<close> that its methods read or write. The
  host, not the plugin, refreshes \<open>current_position\<close>.
\<close>

record adapter =
  controller :: "SR542 option"
  settings :: "param list"
  current_position :: real
  target_value :: real

definition ini_attributes :: "adapter \<Rightarrow> adapter" where
  "ini_attributes s = s\<lparr>controller := None\<rparr>"

text \<open>
  An operation on \<^verbatim>\<open>self.controller\<close>: \<open>AttributeError\<close> while the attribute is \<^verbatim>\<open>None\<close>.
\<close>

definition controller_do :: "env \<Rightarrow> dev_op \<Rightarrow> adapter \<Rightarrow> exn + adapter" where
  "controller_do E op s =
     (case controller s of
        None \<Rightarrow> Inl AttributeError
      | Some d \<Rightarrow>
         (case dev_do E op d of
            Inl e \<Rightarrow> Inl e
          | Inr d' \<Rightarrow> Inr (s\<lparr>controller := Some d'\<rparr>)))"

definition get_actuator_value :: "env \<Rightarrow> adapter \<Rightarrow> exn + real" where
  "get_actuator_value E s =
     (case controller s of
        None \<Rightarrow> Inl AttributeError
      | Some d \<Rightarrow>
         (case read_fault E d of
            Some e \<Rightarrow> Inl e
          | None \<Rightarrow> Inr (get_position_with_scaling E (phase d))))"

definition close :: "env \<Rightarrow> adapter \<Rightarrow> exn + adapter" where
  "close E s = controller_do E Disconnect s"

definition commit_settings :: "env \<Rightarrow> adapter \<Rightarrow> param \<Rightarrow> exn + adapter" where
  "commit_settings E s p =
     (if name p = ''source'' then
        (case controller_do E (SetSource (val p)) s of
           Inl e \<Rightarrow> Inl e
         | Inr s1 \<Rightarrow>
            (case (if val p = VStr ''external'' then show_child ''edge'' (settings s1)
                   else hide_child ''edge'' (settings s1)) of
               Inl e \<Rightarrow> Inl e
             | Inr ps1 \<Rightarrow>
                (case (if val p = VStr ''internal'' then show_child ''internal_freq'' ps1
                       else hide_child ''internal_freq'' ps1) of
                   Inl e \<Rightarrow> Inl e
                 | Inr ps2 \<Rightarrow> Inr (s1\<lparr>settings := ps2\<rparr>))))
      else if name p = ''edge'' then controller_do E (SetSyncEdge (val p)) s
      else if name p = ''internal_freq'' then controller_do E (SetInternalFreq (val p)) s
      else if name p = ''control'' then controller_do E (SetControlTarget (val p)) s
      else if name p = ''run'' then
        (if truthy (val p) then controller_do E OperateRun s
         else controller_do E OperateStop s)
      else Inr s)"

text \<open>
  The loop \<^verbatim>\<open>for param in self.settings.children(): self.commit_settings(param)\<close>.
  \<^verbatim>\<open>children()\<close> is a copy of the list of children taken before the loop;
  \<open>commit_settings\<close> reads only the name and the value of its argument, which no
  iteration changes.
\<close>

fun commit_all :: "env \<Rightarrow> adapter \<Rightarrow> param list \<Rightarrow> exn + adapter" where
  "commit_all E s [] = Inr s"
| "commit_all E s (p # ps) =
     (case commit_settings E s p of Inl e \<Rightarrow> Inl e | Inr s' \<Rightarrow> commit_all E s' ps)"

definition ini_stage ::
  "env \<Rightarrow> adapter \<Rightarrow> SR542 option \<Rightarrow> exn + ((string \<times> bool) \<times> adapter)" where
  "ini_stage E s ctl =
     (case get_item (settings s) ''com_port'' of
        Inl e \<Rightarrow> Inl e
      | Inr port \<Rightarrow>
         (case SR542_new E port of
            Inl e \<Rightarrow> Inl e
          | Inr new \<Rightarrow>
             (case ini_stage_init E ctl new of
                Inl e \<Rightarrow> Inl e
              | Inr c \<Rightarrow>
                 (let s1 = s\<lparr>controller := Some c\<rparr>;
                      info = ''Chopper initialized'';
                      initialized = is_connected c
                  in case commit_all E s1 (settings s1) of
                       Inl e \<Rightarrow> Inl e
                     | Inr s2 \<Rightarrow> Inr ((info, initialized), s2)))))"

definition move_abs :: "env \<Rightarrow> adapter \<Rightarrow> real \<Rightarrow> exn + adapter" where
  "move_abs E s v =
     (let v1 = check_bound E v;
          s1 = s\<lparr>target_value := v1\<rparr>;
          v2 = set_position_with_scaling E v1
      in controller_do E (SetPhase v2) s1)"

definition move_rel :: "env \<Rightarrow> adapter \<Rightarrow> real \<Rightarrow> exn + adapter" where
  "move_rel E s v =
     (let v1 = check_bound E (current_position s + v) - current_position s;
          s1 = s\<lparr>target_value := v1 + current_position s\<rparr>;
          v2 = set_position_relative_with_scaling E v1
      in controller_do E (SetPhase (target_value s1)) s1)"

definition move_home :: "adapter \<Rightarrow> adapter" where
  "move_home s = s"

definition stop_motion :: "env \<Rightarrow> adapter \<Rightarrow> exn + adapter" where
  "stop_motion E s =
     (case controller_do E OperateStop s of
        Inl e \<Rightarrow> Inl e
      | Inr s1 \<Rightarrow>
         (case set_item ''run'' (VBool False) (settings s1) of
            Inl e \<Rightarrow> Inl e
          | Inr ps \<Rightarrow> Inr (s1\<lparr>settings := ps\<rparr>)))"

section \<open>Observations on the adapter state\<close>

text \<open>The operations the device has received, and the phase it holds.\<close>

definition device_log :: "adapter \<Rightarrow> dev_op list" where
  "device_log s = (case controller s of None \<Rightarrow> [] | Some d \<Rightarrow> oplog d)"

definition device_phase :: "adapter \<Rightarrow> real option" where
  "device_phase s = map_option phase (controller s)"

text \<open>
  The device operations that the branches of \<open>commit_settings\<close> issue for a parameter,
  as a table from the parameter's name.
\<close>

definition dispatch_ops :: "param \<Rightarrow> dev_op list" where
  "dispatch_ops p =
     (if name p = ''source'' then [SetSource (val p)]
      else if name p = ''edge'' then [SetSyncEdge (val p)]
      else if name p = ''internal_freq'' then [SetInternalFreq (val p)]
      else if name p = ''control'' then [SetControlTarget (val p)]
      else if name p = ''run'' then [if truthy (val p) then OperateRun else OperateStop]
      else [])"

text \<open>What a move leaves behind: the target value and the phase held by the device.\<close>

definition reached :: "exn + adapter \<Rightarrow> exn + real \<times> real option" where
  "reached r = (case r of Inl e \<Rightarrow> Inl e | Inr s \<Rightarrow> Inr (target_value s, device_phase s))"

text \<open>The absolute target of a relative move by \<open>v\<close>.\<close>

definition rel_target :: "env \<Rightarrow> adapter \<Rightarrow> real \<Rightarrow> real" where
  "rel_target E s v = check_bound E (current_position s + v)"

text \<open>
  Modelled from the spec: the host's polling of the position is not in the repository;
  the spec's data model says that the position is "owned by the device driver, mirrored
  into the adapter's 'current position' cache after scaling".
\<close>

definition refresh_position :: "env \<Rightarrow> adapter \<Rightarrow> exn + adapter" where
  "refresh_position E s =
     (case get_actuator_value E s of
        Inl e \<Rightarrow> Inl e
      | Inr x \<Rightarrow> Inr (s\<lparr>current_position := x\<rparr>))"

text \<open>
  Two relative moves in succession: the host mirrors the position reached by the first
  move into \<open>current_position\<close> before the second.
\<close>

definition move_rel_twice :: "env \<Rightarrow> adapter \<Rightarrow> real \<Rightarrow> exn + adapter" where
  "move_rel_twice E s v =
     (case move_rel E s v of
        Inl e \<Rightarrow> Inl e
      | Inr s1 \<Rightarrow>
         (case refresh_position E s1 of
            Inl e \<Rightarrow> Inl e
          | Inr s2 \<Rightarrow> move_rel E s2 v))"

section \<open>A host with bounds and an affine scaling\<close>

record bounds_cfg =
  is_bounded :: bool
  min_bound :: real
  max_bound :: real

record scaling_cfg =
  use_scaling :: bool
  scaling :: real
  offset :: real

text \<open>
  Modelled from the spec: the host's \<^verbatim>\<open>check_bound\<close> is not in the repository; the spec
  says that a move "clamps target to configured bounds".
\<close>

definition clamp_to_bounds :: "bounds_cfg \<Rightarrow> real \<Rightarrow> real" where
  "clamp_to_bounds b x =
     (if is_bounded b then
        (if x > max_bound b then max_bound b
         else if x < min_bound b then min_bound b
         else x)
      else x)"

text \<open>
  Modelled from the spec: the host's scaling methods are not in the repository; the spec
  says that reading "applies an affine scaling transform (offset/scale configured
  externally)" and that writing applies its inverse ("scale then inverse-scale is
  identity"). A relative distance is scaled without the offset.
\<close>

definition scale_read :: "scaling_cfg \<Rightarrow> real \<Rightarrow> real" where
  "scale_read sc x = (if use_scaling sc then (x - offset sc) * scaling sc else x)"

definition scale_write :: "scaling_cfg \<Rightarrow> real \<Rightarrow> real" where
  "scale_write sc x = (if use_scaling sc then x / scaling sc + offset sc else x)"

definition scale_write_rel :: "scaling_cfg \<Rightarrow> real \<Rightarrow> real" where
  "scale_write_rel sc x = (if use_scaling sc then x / scaling sc else x)"

section \<open>A test bench\<close>

text \<open>
  Concrete collaborators on which the operations are run: a driver that opens only the
  port COM3 and raises on every other port, and whose operations raise on a handle that
  is not connected; a master axis; the host of the previous section.
\<close>

definition fresh_SR542 :: SR542 where
  "fresh_SR542 =
     \<lparr>is_connected = True, source = VNone, sync_edge = VNone, internal_freq = VNone,
      control_target = VNone, phase = 0, running = False, oplog = []\<rparr>"

definition bench_env :: "bounds_cfg \<Rightarrow> scaling_cfg \<Rightarrow> env" where
  "bench_env b sc =
     \<lparr>SR542_new = (\<lambda>port. if port = VStr ''COM3'' then Inr fresh_SR542 else Inl DriverError),
      fault = (\<lambda>d op. if is_connected d then None else Some DriverError),
      read_fault = (\<lambda>d. if is_connected d then None else Some DriverError),
      ini_stage_init = (\<lambda>old new. Inr new),
      check_bound = clamp_to_bounds b,
      set_position_with_scaling = scale_write sc,
      get_position_with_scaling = scale_read sc,
      set_position_relative_with_scaling = scale_write_rel sc\<rparr>"

definition no_bounds :: bounds_cfg where
  "no_bounds = \<lparr>is_bounded = False, min_bound = 0, max_bound = 1\<rparr>"

definition no_scaling :: scaling_cfg where
  "no_scaling = \<lparr>use_scaling = False, scaling = 1, offset = 0\<rparr>"

text \<open>The plugin as constructed on a host whose only serial port is \<open>port\<close>.\<close>

definition bench_adapter :: "string \<Rightarrow> adapter" where
  "bench_adapter port =
     \<lparr>controller = None,
      settings = (case params (comports [(port, ''n/a'', ''n/a'')]) [] of Inl e \<Rightarrow> [] | Inr ps \<Rightarrow> ps),
      current_position = 0, target_value = 0\<rparr>"

text \<open>The plugin holding a connected handle.\<close>

definition bench_ready :: adapter where
  "bench_ready = (bench_adapter ''COM3'')\<lparr>controller := Some fresh_SR542\<rparr>"

text \<open>A parameter object as \<open>commit_settings\<close> reads it: a name and a value.\<close>

definition bench_param :: "string \<Rightarrow> pvalue \<Rightarrow> param" where
  "bench_param n v =
     \<lparr>title = [], name = n, ptype = [], limits = [], pmin = VNone, val = v, visible = True\<rparr>"

section \<open>Facts about the settings tree and the device log\<close>

lemma child_update_child:
  "update_child f n ps = Inr ps' \<Longrightarrow> (\<And>p. name (f p) = name p) \<Longrightarrow>
   child ps' m = (case child ps m of Inl e \<Rightarrow> Inl e | Inr p \<Rightarrow> Inr (if m = n then f p else p))"
  by (induction ps arbitrary: ps') (auto split: if_splits sum.splits)

lemma update_child_total:
  "child ps n = Inr p \<Longrightarrow> \<exists>ps'. update_child f n ps = Inr ps'"
  by (induction ps) (auto split: if_splits sum.splits)

lemma update_child_Inr_child:
  "update_child f n ps = Inr ps' \<Longrightarrow> \<exists>p. child ps n = Inr p"
  by (induction ps arbitrary: ps') (auto split: if_splits sum.splits)

lemma controller_do_Inr:
  "controller_do E op s = Inr s' \<longleftrightarrow>
     (\<exists>d. controller s = Some d \<and> fault E d op = None \<and>
          s' = s\<lparr>controller := Some ((dev_apply op d)\<lparr>oplog := oplog d @ [op]\<rparr>)\<rparr>)"
  by (auto simp: controller_do_def dev_do_def split: option.splits)

lemma controller_do_log:
  "controller_do E op s = Inr s' \<Longrightarrow>
     device_log s' = device_log s @ [op] \<and> settings s' = settings s"
  by (auto simp: controller_do_Inr device_log_def)

lemma toggle_child:
  "(if c then show_child n ps else hide_child n ps) = update_child (\<lambda>p. p\<lparr>visible := c\<rparr>) n ps"
  by (simp add: show_child_def hide_child_def)

lemma child_visible_update:
  assumes "update_child (\<lambda>p. p\<lparr>visible := b\<rparr>) n ps = Inr ps'"
  shows "child_visible ps' m = (if m = n then Some b else child_visible ps m)"
proof -
  obtain p where p: "child ps n = Inr p"
    using update_child_Inr_child [OF assms] by blast
  have "child ps' m = (case child ps m of Inl e \<Rightarrow> Inl e
                        | Inr q \<Rightarrow> Inr (if m = n then q\<lparr>visible := b\<rparr> else q))"
    using child_update_child [OF assms, of m] by simp
  with p show ?thesis
    by (auto simp: child_visible_def split: sum.splits)
qed

lemma get_item_set_item:
  assumes "set_item n v ps = Inr ps'"
  shows "get_item ps' n = Inr v"
proof -
  have u: "update_child (\<lambda>p. p\<lparr>val := v\<rparr>) n ps = Inr ps'"
    using assms by (simp add: set_item_def)
  obtain p where p: "child ps n = Inr p"
    using update_child_Inr_child [OF u] by blast
  have "child ps' n = (case child ps n of Inl e \<Rightarrow> Inl e
                        | Inr q \<Rightarrow> Inr (if n = n then q\<lparr>val := v\<rparr> else q))"
    using child_update_child [OF u, of n] by simp
  with p show ?thesis
    by (simp add: get_item_def)
qed

lemma commit_settings_log:
  assumes "commit_settings E s p = Inr s'"
  shows "device_log s' = device_log s @ dispatch_ops p"
  using assms
  by (auto simp: commit_settings_def dispatch_ops_def device_log_def controller_do_Inr
           split: if_splits sum.splits)

lemma commit_all_log:
  "commit_all E s ps = Inr s' \<Longrightarrow> device_log s' = device_log s @ concat (map dispatch_ops ps)"
proof (induction ps arbitrary: s)
  case Nil
  then show ?case by simp
next
  case (Cons p ps)
  from Cons.prems obtain s1 where
    s1: "commit_settings E s p = Inr s1" and rest: "commit_all E s1 ps = Inr s'"
    by (auto split: sum.splits)
  show ?case
    using commit_settings_log [OF s1] Cons.IH [OF rest] by simp
qed

lemma scale_roundtrip:
  "(use_scaling sc \<longrightarrow> scaling sc \<noteq> 0) \<Longrightarrow> scale_read sc (scale_write sc x) = x"
  by (simp add: scale_read_def scale_write_def)

lemma move_abs_Inr:
  assumes "controller s = Some d"
      and "fault E d (SetPhase (set_position_with_scaling E (check_bound E v))) = None"
  shows "move_abs E s v =
           Inr (s\<lparr>target_value := check_bound E v,
                  controller := Some (d\<lparr>phase := set_position_with_scaling E (check_bound E v),
                     oplog := oplog d @ [SetPhase (set_position_with_scaling E (check_bound E v))]\<rparr>)\<rparr>)"
  using assms by (simp add: move_abs_def controller_do_def dev_do_def Let_def)

lemma move_rel_Inr:
  assumes "controller s = Some d"
      and "fault E d (SetPhase (rel_target E s v)) = None"
  shows "move_rel E s v =
           Inr (s\<lparr>target_value := rel_target E s v,
                  controller := Some (d\<lparr>phase := rel_target E s v,
                     oplog := oplog d @ [SetPhase (rel_target E s v)]\<rparr>)\<rparr>)"
  using assms by (simp add: move_rel_def rel_target_def controller_do_def dev_do_def Let_def)

lemma commit_source_children:
  assumes "name p = ''source''" and "commit_settings E s p = Inr s'"
  shows "child_visible (settings s') ''edge'' = Some (val p = VStr ''external'')"
    and "child_visible (settings s') ''internal_freq'' = Some (val p = VStr ''internal'')"
    and "m \<noteq> ''edge'' \<Longrightarrow> m \<noteq> ''internal_freq'' \<Longrightarrow> child (settings s') m = child (settings s) m"
proof -
  from assms obtain s1 ps1 ps2 where
    s1: "controller_do E (SetSource (val p)) s = Inr s1" and
    e: "update_child (\<lambda>q. q\<lparr>visible := (val p = VStr ''external'')\<rparr>) ''edge'' (settings s1) = Inr ps1" and
    f: "update_child (\<lambda>q. q\<lparr>visible := (val p = VStr ''internal'')\<rparr>) ''internal_freq'' ps1 = Inr ps2" and
    s': "s' = s1\<lparr>settings := ps2\<rparr>"
    unfolding commit_settings_def toggle_child
    by (auto split: sum.splits)
  have keep: "settings s1 = settings s"
    using controller_do_log [OF s1] by simp
  have "child_visible ps1 ''edge'' = Some (val p = VStr ''external'')"
    using child_visible_update [OF e, of "''edge''"] by simp
  then show "child_visible (settings s') ''edge'' = Some (val p = VStr ''external'')"
    using child_visible_update [OF f, of "''edge''"] s' by simp
  show "child_visible (settings s') ''internal_freq'' = Some (val p = VStr ''internal'')"
    using child_visible_update [OF f, of "''internal_freq''"] s' by simp
  show "child (settings s') m = child (settings s) m"
    if "m \<noteq> ''edge''" "m \<noteq> ''internal_freq''"
  proof -
    have "child ps1 m = child (settings s1) m"
      using child_update_child [OF e, of m] that by (simp split: sum.splits)
    moreover have "child ps2 m = child ps1 m"
      using child_update_child [OF f, of m] that by (simp split: sum.splits)
    ultimately show ?thesis
      using s' keep by simp
  qed
qed

lemma refresh_position_Inr:
  assumes "controller s = Some d" and "read_fault E d = None"
  shows "refresh_position E s = Inr (s\<lparr>current_position := get_position_with_scaling E (phase d)\<rparr>)"
  using assms by (simp add: refresh_position_def get_actuator_value_def)

lemma clamp_twice:
  assumes "is_bounded b \<longrightarrow> min_bound b \<le> c \<and> c \<le> max_bound b"
  shows "clamp_to_bounds b (clamp_to_bounds b (c + v) + v) = clamp_to_bounds b (c + 2 * v)"
  using assms by (auto simp: clamp_to_bounds_def)

lemma move_rel_twice_unscaled:
  assumes c: "controller s = Some d"
      and T1: "T1 = check_bound E (current_position s + v)"
      and T2: "T2 = check_bound E (current_position s + 2 * v)"
      and rd: "get_position_with_scaling E T1 = T1"
      and wr: "set_position_with_scaling E T2 = T2"
      and cl: "check_bound E (T1 + v) = T2"
      and f1: "fault E d (SetPhase T1) = None"
      and f2: "read_fault E (d\<lparr>phase := T1, oplog := oplog d @ [SetPhase T1]\<rparr>) = None"
      and f3: "fault E (d\<lparr>phase := T1, oplog := oplog d @ [SetPhase T1]\<rparr>) (SetPhase T2) = None"
      and f4: "fault E d (SetPhase T2) = None"
  shows "reached (move_rel_twice E s v) = Inr (T2, Some T2)"
    and "reached (move_abs E s (current_position s + 2 * v)) = Inr (T2, Some T2)"
proof -
  let ?d1 = "d\<lparr>phase := T1, oplog := oplog d @ [SetPhase T1]\<rparr>"
  let ?s1 = "s\<lparr>target_value := T1, controller := Some ?d1\<rparr>"
  let ?s2 = "?s1\<lparr>current_position := T1\<rparr>"
  have one: "move_rel E s v = Inr ?s1"
    using move_rel_Inr [OF c, of E v] f1 T1 by (simp add: rel_target_def)
  have mirror: "refresh_position E ?s1 = Inr ?s2"
    using refresh_position_Inr [of ?s1 ?d1 E] f2 rd by simp
  have r2: "rel_target E ?s2 v = T2"
    using cl by (simp add: rel_target_def)
  have two: "move_rel E ?s2 v =
       Inr (?s2\<lparr>target_value := T2,
               controller := Some (?d1\<lparr>phase := T2, oplog := oplog ?d1 @ [SetPhase T2]\<rparr>)\<rparr>)"
    using move_rel_Inr [of ?s2 ?d1 E v] f3 r2 by simp
  show "reached (move_rel_twice E s v) = Inr (T2, Some T2)"
    using one mirror two by (simp add: move_rel_twice_def reached_def device_phase_def)
  show "reached (move_abs E s (current_position s + 2 * v)) = Inr (T2, Some T2)"
    using move_abs_Inr [OF c, of E "current_position s + 2 * v"] f4 wr T2
    by (simp add: reached_def device_phase_def)
qed

lemmas bench_defs =
  bench_env_def bench_adapter_def bench_ready_def fresh_SR542_def params_def comports_def
  no_bounds_def no_scaling_def

lemma bench_commit_returns:
  "\<exists>s'. commit_settings (bench_env b sc) bench_ready (bench_param n v) = Inr s'"
  by (simp add: commit_settings_def controller_do_def dev_do_def show_child_def hide_child_def
      bench_param_def bench_env_def bench_adapter_def bench_ready_def fresh_SR542_def params_def
      comports_def)

lemma bench_ready_log: "device_log bench_ready = []"
  by (simp add: device_log_def bench_ready_def fresh_SR542_def)

lemma bench_param_sel: "name (bench_param n v) = n" "val (bench_param n v) = v"
  by (simp_all add: bench_param_def)

lemma bench_ini_stage:
  "\<exists>s'. ini_stage (bench_env no_bounds no_scaling) (bench_adapter ''COM3'') None
          = Inr ((''Chopper initialized'', True), s')"
  by (simp add: ini_stage_def get_item_def commit_settings_def controller_do_def dev_do_def
      show_child_def hide_child_def Let_def bench_env_def bench_adapter_def fresh_SR542_def
      params_def comports_def)

section \<open>Visibility after a change of the source\<close>

text \<open>
  Claim C1. When \<open>commit_settings\<close> is applied to the parameter named source and
  returns, the child edge is visible exactly when the new value is 'external' and the
  child internal_freq is visible exactly when the new value is 'internal'; for every
  other value ('vco', 'line') both are hidden. This holds from every state.
\<close>

theorem source_visibility:
  assumes "name p = ''source''" and "commit_settings E s p = Inr s'"
  shows "child_visible (settings s') ''edge'' = Some (val p = VStr ''external'')
       \<and> child_visible (settings s') ''internal_freq'' = Some (val p = VStr ''internal'')"
proof -
  from assms obtain s1 ps1 ps2 where
    s1: "controller_do E (SetSource (val p)) s = Inr s1" and
    e: "update_child (\<lambda>q. q\<lparr>visible := (val p = VStr ''external'')\<rparr>) ''edge'' (settings s1) = Inr ps1" and
    f: "update_child (\<lambda>q. q\<lparr>visible := (val p = VStr ''internal'')\<rparr>) ''internal_freq'' ps1 = Inr ps2" and
    s': "s' = s1\<lparr>settings := ps2\<rparr>"
    unfolding commit_settings_def toggle_child
    by (auto split: sum.splits)
  have "child_visible ps1 ''edge'' = Some (val p = VStr ''external'')"
    using child_visible_update [OF e, of "''edge''"] by simp
  then have "child_visible ps2 ''edge'' = Some (val p = VStr ''external'')"
    using child_visible_update [OF f, of "''edge''"] by simp
  moreover have "child_visible ps2 ''internal_freq'' = Some (val p = VStr ''internal'')"
    using child_visible_update [OF f, of "''internal_freq''"] by simp
  ultimately show ?thesis
    using s' by simp
qed

theorem source_visibility_witness:
  "(\<exists>s'. commit_settings (bench_env no_bounds no_scaling) bench_ready
            (bench_param ''source'' (VStr ''external'')) = Inr s'
        \<and> child_visible (settings s') ''edge'' = Some True
        \<and> child_visible (settings s') ''internal_freq'' = Some False)
   \<and> (\<exists>s'. commit_settings (bench_env no_bounds no_scaling) bench_ready
            (bench_param ''source'' (VStr ''internal'')) = Inr s'
        \<and> child_visible (settings s') ''edge'' = Some False
        \<and> child_visible (settings s') ''internal_freq'' = Some True)
   \<and> (\<exists>s'. commit_settings (bench_env no_bounds no_scaling) bench_ready
            (bench_param ''source'' (VStr ''vco'')) = Inr s'
        \<and> child_visible (settings s') ''edge'' = Some False
        \<and> child_visible (settings s') ''internal_freq'' = Some False)"
proof -
  let ?E = "bench_env no_bounds no_scaling"
  have "\<exists>s'. commit_settings ?E bench_ready (bench_param ''source'' v) = Inr s'
        \<and> child_visible (settings s') ''edge'' = Some (v = VStr ''external'')
        \<and> child_visible (settings s') ''internal_freq'' = Some (v = VStr ''internal'')" for v
  proof -
    obtain s' where r: "commit_settings ?E bench_ready (bench_param ''source'' v) = Inr s'"
      using bench_commit_returns by blast
    have n: "name (bench_param ''source'' v) = ''source''"
      by (simp add: bench_param_sel)
    from source_visibility [OF n r] r show ?thesis
      by (auto simp: bench_param_sel)
  qed
  from this [of "VStr ''external''"] this [of "VStr ''internal''"] this [of "VStr ''vco''"]
  show ?thesis by simp
qed

section \<open>Initialisation on a port that cannot be opened\<close>

text \<open>
  Claim C2. On a port whose connection cannot be established \<open>ini_stage\<close> is to return
  success = false without raising; its docstring promises "initialized: bool, False if
  initialization failed otherwise True". \<open>ini_stage\<close> has no handler around the
  driver's constructor: on a driver whose constructor raises for the port COM9 the call
  ends with that exception and returns no flag.
\<close>

theorem ini_stage_unreachable_raises:
  "ini_stage (bench_env no_bounds no_scaling) (bench_adapter ''COM9'') None = Inl DriverError"
  by (simp add: ini_stage_def get_item_def bench_env_def bench_adapter_def params_def comports_def)

section \<open>Relative and absolute moves\<close>

text \<open>
  Claim C3 says that \<open>move_rel\<close> writes to the device's phase what \<open>move_abs\<close> writes
  for the same target, scaling included. With a scaling of 2 and no offset, from position
  0, \<open>move_rel\<close> by 10 sets the target 10 and writes the phase 10, the target itself,
  while \<open>move_abs\<close> to 10 sets the same target and writes the scaled phase 5.
\<close>

theorem move_rel_skips_scaling:
  "reached (move_rel (bench_env no_bounds \<lparr>use_scaling = True, scaling = 2, offset = 0\<rparr>) bench_ready 10)
     = Inr (10, Some 10)
   \<and> reached (move_abs (bench_env no_bounds \<lparr>use_scaling = True, scaling = 2, offset = 0\<rparr>) bench_ready 10)
     = Inr (10, Some 5)"
  by (simp add: reached_def move_rel_def move_abs_def controller_do_def dev_do_def device_phase_def
      Let_def bench_defs clamp_to_bounds_def scale_write_def)

section \<open>The dispatch of a changed setting\<close>

text \<open>
  Claim C4. \<open>commit_settings\<close> is a dispatch on the name of the parameter. For each
  of the names with a mapping, when the call returns, the device has received exactly
  one more operation, the one of that name, and no other: source sets the source, edge
  the sync edge, internal_freq the internal frequency, control the control target, and
  run starts the device for a true value and stops it for a false one. For source the
  visibility of edge and of internal_freq is set as well and every other child of the
  settings is as before; for the other four names the settings are unchanged.
\<close>

theorem commit_settings_dispatch:
  assumes "commit_settings E s p = Inr s'"
  shows "(name p = ''source'' \<longrightarrow>
            device_log s' = device_log s @ [SetSource (val p)]
            \<and> child_visible (settings s') ''edge'' = Some (val p = VStr ''external'')
            \<and> child_visible (settings s') ''internal_freq'' = Some (val p = VStr ''internal'')
            \<and> (\<forall>m. m \<noteq> ''edge'' \<and> m \<noteq> ''internal_freq''
                  \<longrightarrow> child (settings s') m = child (settings s) m))
       \<and> (name p = ''edge'' \<longrightarrow>
            device_log s' = device_log s @ [SetSyncEdge (val p)] \<and> settings s' = settings s)
       \<and> (name p = ''internal_freq'' \<longrightarrow>
            device_log s' = device_log s @ [SetInternalFreq (val p)] \<and> settings s' = settings s)
       \<and> (name p = ''control'' \<longrightarrow>
            device_log s' = device_log s @ [SetControlTarget (val p)] \<and> settings s' = settings s)
       \<and> (name p = ''run'' \<longrightarrow>
            device_log s' = device_log s @ [if truthy (val p) then OperateRun else OperateStop]
            \<and> settings s' = settings s)"
proof -
  have log: "device_log s' = device_log s @ dispatch_ops p"
    using commit_settings_log [OF assms] .
  have keep: "name p \<noteq> ''source'' \<Longrightarrow> settings s' = settings s"
    using assms
    by (auto simp: commit_settings_def controller_do_Inr split: if_splits)
  have src: "child_visible (settings s') ''edge'' = Some (val p = VStr ''external'')
       \<and> child_visible (settings s') ''internal_freq'' = Some (val p = VStr ''internal'')
       \<and> (\<forall>m. m \<noteq> ''edge'' \<and> m \<noteq> ''internal_freq''
                  \<longrightarrow> child (settings s') m = child (settings s) m)"
    if "name p = ''source''"
    using commit_source_children [OF that assms] by blast
  show ?thesis
    using log keep src by (simp add: dispatch_ops_def)
qed

theorem commit_settings_dispatch_witness:
  "(\<exists>s'. commit_settings (bench_env no_bounds no_scaling) bench_ready
            (bench_param ''source'' (VStr ''line'')) = Inr s'
        \<and> device_log s' = [SetSource (VStr ''line'')]
        \<and> child_visible (settings s') ''edge'' = Some False
        \<and> child_visible (settings s') ''internal_freq'' = Some False
        \<and> child (settings s') ''run'' = child (settings bench_ready) ''run'')
   \<and> (\<exists>s'. commit_settings (bench_env no_bounds no_scaling) bench_ready
            (bench_param ''edge'' (VStr ''fall'')) = Inr s'
        \<and> device_log s' = [SetSyncEdge (VStr ''fall'')] \<and> settings s' = settings bench_ready)
   \<and> (\<exists>s'. commit_settings (bench_env no_bounds no_scaling) bench_ready
            (bench_param ''internal_freq'' (VFloat 50)) = Inr s'
        \<and> device_log s' = [SetInternalFreq (VFloat 50)] \<and> settings s' = settings bench_ready)
   \<and> (\<exists>s'. commit_settings (bench_env no_bounds no_scaling) bench_ready
            (bench_param ''control'' (VStr ''inner'')) = Inr s'
        \<and> device_log s' = [SetControlTarget (VStr ''inner'')] \<and> settings s' = settings bench_ready)
   \<and> (\<exists>s'. commit_settings (bench_env no_bounds no_scaling) bench_ready
            (bench_param ''run'' (VBool True)) = Inr s'
        \<and> device_log s' = [OperateRun] \<and> settings s' = settings bench_ready)"
proof -
  let ?E = "bench_env no_bounds no_scaling"
  have step: "\<exists>s'. commit_settings ?E bench_ready (bench_param n v) = Inr s'
        \<and> (n = ''source'' \<longrightarrow> device_log s' = [SetSource v]
              \<and> child_visible (settings s') ''edge'' = Some (v = VStr ''external'')
              \<and> child_visible (settings s') ''internal_freq'' = Some (v = VStr ''internal'')
              \<and> child (settings s') ''run'' = child (settings bench_ready) ''run'')
        \<and> (n = ''edge'' \<longrightarrow> device_log s' = [SetSyncEdge v] \<and> settings s' = settings bench_ready)
        \<and> (n = ''internal_freq'' \<longrightarrow>
              device_log s' = [SetInternalFreq v] \<and> settings s' = settings bench_ready)
        \<and> (n = ''control'' \<longrightarrow>
              device_log s' = [SetControlTarget v] \<and> settings s' = settings bench_ready)
        \<and> (n = ''run'' \<longrightarrow>
              device_log s' = [if truthy v then OperateRun else OperateStop]
              \<and> settings s' = settings bench_ready)"
    for n v
  proof -
    obtain s' where r: "commit_settings ?E bench_ready (bench_param n v) = Inr s'"
      using bench_commit_returns by blast
    from commit_settings_dispatch [OF r] r show ?thesis
      by (simp add: bench_param_sel bench_ready_log)
  qed
  have "\<exists>s'. commit_settings ?E bench_ready (bench_param ''source'' (VStr ''line'')) = Inr s'
        \<and> device_log s' = [SetSource (VStr ''line'')]
        \<and> child_visible (settings s') ''edge'' = Some False
        \<and> child_visible (settings s') ''internal_freq'' = Some False
        \<and> child (settings s') ''run'' = child (settings bench_ready) ''run''"
    using step [of "''source''" "VStr ''line''"] by simp
  moreover have "\<exists>s'. commit_settings ?E bench_ready (bench_param ''edge'' (VStr ''fall'')) = Inr s'
        \<and> device_log s' = [SetSyncEdge (VStr ''fall'')] \<and> settings s' = settings bench_ready"
    using step [of "''edge''" "VStr ''fall''"] by simp
  moreover have "\<exists>s'. commit_settings ?E bench_ready (bench_param ''internal_freq'' (VFloat 50)) = Inr s'
        \<and> device_log s' = [SetInternalFreq (VFloat 50)] \<and> settings s' = settings bench_ready"
    using step [of "''internal_freq''" "VFloat 50"] by simp
  moreover have "\<exists>s'. commit_settings ?E bench_ready (bench_param ''control'' (VStr ''inner'')) = Inr s'
        \<and> device_log s' = [SetControlTarget (VStr ''inner'')] \<and> settings s' = settings bench_ready"
    using step [of "''control''" "VStr ''inner''"] by simp
  moreover have "\<exists>s'. commit_settings ?E bench_ready (bench_param ''run'' (VBool True)) = Inr s'
        \<and> device_log s' = [OperateRun] \<and> settings s' = settings bench_ready"
    using step [of "''run''" "VBool True"] by simp
  ultimately show ?thesis by blast
qed

section \<open>Stopping\<close>

text \<open>
  Claim C5. Whatever the value of the run setting before, \<open>stop_motion\<close> on an
  initialised plugin issues a stop to the device and then leaves the run setting at
  false.
\<close>

theorem stop_motion_resets_run:
  assumes "controller s = Some d"
      and "fault E d OperateStop = None"
      and "child (settings s) ''run'' = Inr r"
  shows "\<exists>s'. stop_motion E s = Inr s'
            \<and> get_item (settings s') ''run'' = Inr (VBool False)
            \<and> device_log s' = oplog d @ [OperateStop]
            \<and> map_option running (controller s') = Some False"
proof -
  let ?s1 = "s\<lparr>controller := Some ((dev_apply OperateStop d)\<lparr>oplog := oplog d @ [OperateStop]\<rparr>)\<rparr>"
  have s1: "controller_do E OperateStop s = Inr ?s1"
    using assms(1,2) by (simp add: controller_do_Inr)
  obtain ps where ps: "set_item ''run'' (VBool False) (settings ?s1) = Inr ps"
    using update_child_total [OF assms(3)] by (auto simp: set_item_def)
  have "stop_motion E s = Inr (?s1\<lparr>settings := ps\<rparr>)"
    using s1 ps by (simp add: stop_motion_def)
  moreover have "get_item ps ''run'' = Inr (VBool False)"
    using get_item_set_item [OF ps] .
  ultimately show ?thesis
    by (simp add: device_log_def)
qed

theorem stop_motion_resets_run_witness:
  "\<exists>s'. stop_motion (bench_env no_bounds no_scaling)
          (bench_ready\<lparr>settings :=
             [\<lparr>title = ''Run/Stop'', name = ''run'', ptype = ''bool_push'',
               limits = [], pmin = VNone, val = VBool True, visible = True\<rparr>]\<rparr>) = Inr s'
        \<and> get_item (settings s') ''run'' = Inr (VBool False)
        \<and> device_log s' = [OperateStop]"
proof -
  let ?r = "\<lparr>title = ''Run/Stop'', name = ''run'', ptype = ''bool_push'',
               limits = [], pmin = VNone, val = VBool True, visible = True\<rparr>"
  let ?s = "bench_ready\<lparr>settings := [?r]\<rparr>"
  have c: "controller ?s = Some fresh_SR542"
    by (simp add: bench_ready_def)
  have f: "fault (bench_env no_bounds no_scaling) fresh_SR542 OperateStop = None"
    by (simp add: bench_env_def fresh_SR542_def)
  have r: "child (settings ?s) ''run'' = Inr ?r"
    by simp
  have "oplog fresh_SR542 = []"
    by (simp add: fresh_SR542_def)
  with stop_motion_resets_run [OF c f r] show ?thesis
    by auto
qed

section \<open>Reading back an absolute move\<close>

text \<open>
  Claim C6. For a target within the bounds (one that \<open>check_bound\<close> leaves as it is),
  \<open>move_abs\<close> followed by \<open>get_actuator_value\<close> returns the target taken through the
  scaling for writing and then the scaling for reading; when these are an affine
  transform and its inverse, with a scaling other than 0, that is the target itself.
\<close>

theorem move_abs_then_get_actuator_value:
  assumes "controller s = Some d"
      and "check_bound E t = t"
      and "fault E d (SetPhase (set_position_with_scaling E t)) = None"
      and "read_fault E (d\<lparr>phase := set_position_with_scaling E t,
              oplog := oplog d @ [SetPhase (set_position_with_scaling E t)]\<rparr>) = None"
  shows "\<exists>s1. move_abs E s t = Inr s1
            \<and> get_actuator_value E s1
                = Inr (get_position_with_scaling E (set_position_with_scaling E t))
            \<and> (\<forall>sc. set_position_with_scaling E = scale_write sc
                    \<and> get_position_with_scaling E = scale_read sc
                    \<and> (use_scaling sc \<longrightarrow> scaling sc \<noteq> 0)
                 \<longrightarrow> get_actuator_value E s1 = Inr t)"
proof -
  let ?w = "set_position_with_scaling E t"
  let ?s1 = "s\<lparr>target_value := t,
               controller := Some (d\<lparr>phase := ?w, oplog := oplog d @ [SetPhase ?w]\<rparr>)\<rparr>"
  have m: "move_abs E s t = Inr ?s1"
    using move_abs_Inr [of s d E t] assms(1,2,3) by simp
  have g: "get_actuator_value E ?s1 = Inr (get_position_with_scaling E ?w)"
    using assms(4) by (simp add: get_actuator_value_def)
  have "get_actuator_value E ?s1 = Inr t"
    if "set_position_with_scaling E = scale_write sc"
       "get_position_with_scaling E = scale_read sc"
       "use_scaling sc \<longrightarrow> scaling sc \<noteq> 0" for sc
    using g that scale_roundtrip [of sc t] by simp
  with m g show ?thesis by blast
qed

theorem move_abs_then_get_actuator_value_witness:
  "\<exists>s1. move_abs (bench_env \<lparr>is_bounded = True, min_bound = 0, max_bound = 360\<rparr>
                             \<lparr>use_scaling = True, scaling = 2, offset = 5\<rparr>) bench_ready 90 = Inr s1
      \<and> device_phase s1 = Some 50
      \<and> get_actuator_value (bench_env \<lparr>is_bounded = True, min_bound = 0, max_bound = 360\<rparr>
                             \<lparr>use_scaling = True, scaling = 2, offset = 5\<rparr>) s1 = Inr 90"
proof -
  let ?sc = "\<lparr>use_scaling = True, scaling = 2, offset = 5\<rparr>"
  let ?E = "bench_env \<lparr>is_bounded = True, min_bound = 0, max_bound = 360\<rparr> ?sc"
  have c: "controller bench_ready = Some fresh_SR542"
    by (simp add: bench_ready_def)
  have b: "check_bound ?E 90 = 90"
    by (simp add: bench_env_def clamp_to_bounds_def)
  have f: "fault ?E fresh_SR542 (SetPhase (set_position_with_scaling ?E 90)) = None"
    by (simp add: bench_env_def fresh_SR542_def)
  have r: "read_fault ?E (fresh_SR542\<lparr>phase := set_position_with_scaling ?E 90,
              oplog := oplog fresh_SR542 @ [SetPhase (set_position_with_scaling ?E 90)]\<rparr>) = None"
    by (simp add: bench_env_def fresh_SR542_def)
  have w: "set_position_with_scaling ?E = scale_write ?sc \<and> get_position_with_scaling ?E = scale_read ?sc
           \<and> (use_scaling ?sc \<longrightarrow> scaling ?sc \<noteq> 0)"
    by (simp add: bench_env_def)
  from move_abs_then_get_actuator_value [OF c b f r] obtain s1 where
    m: "move_abs ?E bench_ready 90 = Inr s1" and
    g: "\<forall>sc. set_position_with_scaling ?E = scale_write sc
                    \<and> get_position_with_scaling ?E = scale_read sc
                    \<and> (use_scaling sc \<longrightarrow> scaling sc \<noteq> 0)
                 \<longrightarrow> get_actuator_value ?E s1 = Inr 90"
    by blast
  have g': "get_actuator_value ?E s1 = Inr 90"
    using g w by blast
  have "move_abs ?E bench_ready 90 =
          Inr (bench_ready\<lparr>target_value := check_bound ?E 90,
                  controller := Some (fresh_SR542\<lparr>phase := set_position_with_scaling ?E (check_bound ?E 90),
                     oplog := oplog fresh_SR542 @ [SetPhase (set_position_with_scaling ?E (check_bound ?E 90))]\<rparr>)\<rparr>)"
    using move_abs_Inr [OF c, of ?E 90] f b by simp
  with m have "device_phase s1 = Some (set_position_with_scaling ?E 90)"
    using b by (auto simp: device_phase_def)
  then have "device_phase s1 = Some 50"
    by (simp add: bench_env_def scale_write_def)
  with m g' show ?thesis by blast
qed

section \<open>Two relative moves\<close>

text \<open>
  Claim C7. Two relative moves by \<open>delta\<close> in succession, the position being mirrored
  into \<open>current_position\<close> in between, are to leave the target and the device's phase
  of one absolute move to the starting position plus twice \<open>delta\<close>. With a scaling of
  2 and no offset, from position 0, two moves by 10 leave the target and the phase at 30,
  and the absolute move to 20 leaves the target 20 and the phase 10: the first relative
  move writes the phase 10 unscaled, which reads back as the position 20. Without
  scaling both leave the target and the phase at 20.
\<close>

theorem move_rel_twice_skips_scaling:
  "reached (move_rel_twice (bench_env no_bounds \<lparr>use_scaling = True, scaling = 2, offset = 0\<rparr>)
      bench_ready 10) = Inr (30, Some 30)
   \<and> reached (move_abs (bench_env no_bounds \<lparr>use_scaling = True, scaling = 2, offset = 0\<rparr>)
      bench_ready (current_position bench_ready + 2 * 10)) = Inr (20, Some 10)
   \<and> reached (move_rel_twice (bench_env no_bounds no_scaling) bench_ready 10) = Inr (20, Some 20)
   \<and> reached (move_abs (bench_env no_bounds no_scaling)
      bench_ready (current_position bench_ready + 2 * 10)) = Inr (20, Some 20)"
  by (simp add: reached_def move_rel_twice_def refresh_position_def get_actuator_value_def
      move_rel_def move_abs_def controller_do_def dev_do_def device_phase_def
      Let_def bench_defs clamp_to_bounds_def scale_write_def scale_read_def)

section \<open>Initialisation\<close>

text \<open>
  Claim C8. \<open>ini_stage\<close> returns exactly when the driver opens on the value of the
  com_port setting, the host hands back a controller, and every setting, taken in the
  order of the settings tree, is applied through \<open>commit_settings\<close>. The device has then
  received the operations of the settings in that order, and the success flag is the
  answer of the controller's \<open>is_connected\<close>.
\<close>

theorem ini_stage_applies_settings:
  "ini_stage E s old = Inr ((info, ok), s') \<longleftrightarrow>
     (\<exists>port new c.
           get_item (settings s) ''com_port'' = Inr port
         \<and> SR542_new E port = Inr new
         \<and> ini_stage_init E old new = Inr c
         \<and> info = ''Chopper initialized''
         \<and> ok = is_connected c
         \<and> commit_all E (s\<lparr>controller := Some c\<rparr>) (settings s) = Inr s'
         \<and> device_log s' = oplog c @ concat (map dispatch_ops (settings s)))"
proof
  assume "ini_stage E s old = Inr ((info, ok), s')"
  then obtain port new c where
    p: "get_item (settings s) ''com_port'' = Inr port" and
    n: "SR542_new E port = Inr new" and
    c: "ini_stage_init E old new = Inr c" and
    r: "commit_all E (s\<lparr>controller := Some c\<rparr>) (settings s) = Inr s'" and
    k: "info = ''Chopper initialized''" "ok = is_connected c"
    by (auto simp: ini_stage_def Let_def split: sum.splits)
  have "device_log s' = device_log (s\<lparr>controller := Some c\<rparr>) @ concat (map dispatch_ops (settings s))"
    using commit_all_log [OF r] .
  then have "device_log s' = oplog c @ concat (map dispatch_ops (settings s))"
    by (simp add: device_log_def)
  with p n c r k
  show "\<exists>port new c.
           get_item (settings s) ''com_port'' = Inr port
         \<and> SR542_new E port = Inr new
         \<and> ini_stage_init E old new = Inr c
         \<and> info = ''Chopper initialized''
         \<and> ok = is_connected c
         \<and> commit_all E (s\<lparr>controller := Some c\<rparr>) (settings s) = Inr s'
         \<and> device_log s' = oplog c @ concat (map dispatch_ops (settings s))"
    by blast
next
  assume "\<exists>port new c.
           get_item (settings s) ''com_port'' = Inr port
         \<and> SR542_new E port = Inr new
         \<and> ini_stage_init E old new = Inr c
         \<and> info = ''Chopper initialized''
         \<and> ok = is_connected c
         \<and> commit_all E (s\<lparr>controller := Some c\<rparr>) (settings s) = Inr s'
         \<and> device_log s' = oplog c @ concat (map dispatch_ops (settings s))"
  then show "ini_stage E s old = Inr ((info, ok), s')"
    by (auto simp: ini_stage_def Let_def)
qed

theorem ini_stage_applies_settings_witness:
  "\<exists>s'. ini_stage (bench_env no_bounds no_scaling) (bench_adapter ''COM3'') None
          = Inr ((''Chopper initialized'', True), s')
      \<and> device_log s' =
          [SetSource (VStr ''internal''), SetSyncEdge (VStr ''rise''), SetInternalFreq (VFloat 100),
           SetControlTarget (VStr ''outer''), OperateStop]"
proof -
  let ?E = "bench_env no_bounds no_scaling"
  obtain s' where r: "ini_stage ?E (bench_adapter ''COM3'') None = Inr ((''Chopper initialized'', True), s')"
    using bench_ini_stage by blast
  from ini_stage_applies_settings [THEN iffD1, OF r] obtain port new c where
    n: "SR542_new ?E port = Inr new" and
    c: "ini_stage_init ?E None new = Inr c" and
    l: "device_log s' = oplog c @ concat (map dispatch_ops (settings (bench_adapter ''COM3'')))"
    by blast
  have "new = fresh_SR542"
    using n by (simp add: bench_env_def split: if_splits)
  then have "c = fresh_SR542"
    using c by (simp add: bench_env_def)
  then have "device_log s' = concat (map dispatch_ops (settings (bench_adapter ''COM3'')))"
    using l by (simp add: fresh_SR542_def)
  then have "device_log s' =
          [SetSource (VStr ''internal''), SetSyncEdge (VStr ''rise''), SetInternalFreq (VFloat 100),
           SetControlTarget (VStr ''outer''), OperateStop]"
    by (simp add: dispatch_ops_def bench_adapter_def params_def comports_def)
  with r show ?thesis by blast
qed

section \<open>Closing before initialisation\<close>

text \<open>
  Claim C9. \<open>close\<close> on a plugin whose controller is still the \<^verbatim>\<open>None\<close> of
  \<open>ini_attributes\<close> does not return: it ends with an exception, the attribute error of
  \<^verbatim>\<open>None.disconnect\<close>.
\<close>

theorem close_before_ini_stage_raises:
  "close E (ini_attributes s) = Inl AttributeError"
  by (simp add: close_def ini_attributes_def controller_do_def)

section \<open>The parameter table needs a serial port\<close>

text \<open>
  Claim C10. On a host with no serial port the parameter table cannot be built: the
  default of com_port is the first enumerated port, and indexing the empty list raises.
  With at least one port the table is built and the default of com_port is the first
  port.
\<close>

theorem params_needs_a_port:
  "params (comports []) comon = Inl IndexError
   \<and> (\<forall>port desc hwid infos. \<exists>tbl.
         params (comports ((port, desc, hwid) # infos)) comon = Inr tbl
         \<and> get_item tbl ''com_port'' = Inr (VStr port))"
  by (simp add: params_def comports_def get_item_def)

end
